theory Spec2Isabelle
  imports Main "HOL-Library.AList"
begin

section \<open>JavaScript values as the evaluation route sees them\<close>

text \<open>
  The route \<^verbatim>\<open>src/app/api/eval/route.ts\<close> receives a parsed JSON body and answers with
  \<^verbatim>\<open>NextResponse.json\<close>. Values are JSON values plus \<^verbatim>\<open>undefined\<close> (what a missing
  property reads as). Numbers are integers here; strings are character lists, so
  \<^verbatim>\<open>code.length\<close> is the list length (snippets in the ASCII range). An object is its
  property list in insertion order, each key once, as \<^verbatim>\<open>JSON.parse\<close> and object literals
  build it.
\<close>

datatype jsval =
    JUndefined
  | JNull
  | JBool bool
  | JNum int
  | JStr string
  | JArr "jsval list"
  | JObj "(string \<times> jsval) list"

text \<open>JavaScript truthiness, as used by \<^verbatim>\<open>!code\<close> and \<^verbatim>\<open>x || {}\<close>.\<close>

fun truthy :: "jsval \<Rightarrow> bool" where
  "truthy JUndefined = False"
| "truthy JNull = False"
| "truthy (JBool b) = b"
| "truthy (JNum n) = (n \<noteq> 0)"
| "truthy (JStr s) = (s \<noteq> [])"
| "truthy (JArr xs) = True"
| "truthy (JObj fs) = True"

text \<open>\<^verbatim>\<open>a || b\<close>.\<close>

definition js_or :: "jsval \<Rightarrow> jsval \<Rightarrow> jsval" where
  "js_or a b = (if truthy a then a else b)"

text \<open>
  Reading a property \<^verbatim>\<open>v.k\<close> of a value that is neither null nor undefined: an own
  property of an object, \<^verbatim>\<open>undefined\<close> otherwise (the keys read by the route are not
  properties of arrays, strings, numbers or booleans).
\<close>

fun get_prop :: "jsval \<Rightarrow> string \<Rightarrow> jsval" where
  "get_prop (JObj fs) k = (case map_of fs k of Some v \<Rightarrow> v | None \<Rightarrow> JUndefined)"
| "get_prop v k = JUndefined"



text \<open>
  \<^verbatim>\<open>JSON.stringify\<close> followed by the client's \<^verbatim>\<open>JSON.parse\<close>: a property whose value is
  \<^verbatim>\<open>undefined\<close> is left out of an object, an \<^verbatim>\<open>undefined\<close> array element becomes null.
\<close>

fun json_roundtrip :: "jsval \<Rightarrow> jsval" where
  "json_roundtrip (JArr xs) =
     JArr (map (\<lambda>x. if x = JUndefined then JNull else json_roundtrip x) xs)"
| "json_roundtrip (JObj fs) =
     JObj (map (\<lambda>(k, v). (k, json_roundtrip v)) (filter (\<lambda>(k, v). v \<noteq> JUndefined) fs))"
| "json_roundtrip v = v"

section \<open>The textual scan of \<^verbatim>\<open>safeEval\<close>\<close>

text \<open>\<^verbatim>\<open>String.prototype.includes\<close>: the keyword occurs somewhere in the code.\<close>

fun starts_with :: "string \<Rightarrow> string \<Rightarrow> bool" where
  "starts_with s [] = True"
| "starts_with [] (k # ks) = False"
| "starts_with (c # cs) (k # ks) = (c = k \<and> starts_with cs ks)"

fun str_includes :: "string \<Rightarrow> string \<Rightarrow> bool" where
  "str_includes [] k = (k = [])"
| "str_includes (c # cs) k = (starts_with (c # cs) k \<or> str_includes cs k)"

definition dangerousKeywords :: "string list" where
  "dangerousKeywords =
     [''eval'', ''Function'', ''setTimeout'', ''setInterval'', ''clearTimeout'',
      ''clearInterval'', ''XMLHttpRequest'', ''fetch'', ''import'', ''require'',
      ''process'', ''global'', ''__dirname'', ''__filename'', ''Buffer'', ''module'',
      ''exports'']"

text \<open>
  The regular expressions of \<^verbatim>\<open>dangerousPatterns\<close> are literal texts; each is a fresh
  object per call, so \<^verbatim>\<open>pattern.test(code)\<close> searches from the start and is a substring
  test. A pattern is the pair of its \<^verbatim>\<open>source\<close> (what the message prints) and the text
  it matches: \<^verbatim>\<open>/this\./\<close> has the source \<^verbatim>\<open>this\.\<close> and matches \<^verbatim>\<open>this.\<close>.
\<close>

definition dangerousPatterns :: "(string \<times> string) list" where
  "dangerousPatterns =
     [(''constructor'', ''constructor''), (''prototype'', ''prototype''),
      (''__proto__'', ''__proto__''), (''window'', ''window''),
      (''document'', ''document''), (''location'', ''location''),
      (''navigator'', ''navigator''), (''this'' @ [CHR 0x5C] @ ''.'', ''this.'')]"

text \<open>The two \<^verbatim>\<open>for\<close> statements: the first hit in list order throws, with its message.\<close>

fun scan_keywords :: "string list \<Rightarrow> string \<Rightarrow> string option" where
  "scan_keywords [] code = None"
| "scan_keywords (keyword # ks) code =
     (if str_includes code keyword
      then Some (''Unsafe code detected: '' @ keyword @ '' is not allowed'')
      else scan_keywords ks code)"

fun scan_patterns :: "(string \<times> string) list \<Rightarrow> string \<Rightarrow> string option" where
  "scan_patterns [] code = None"
| "scan_patterns ((source, lit) # ps) code =
     (if str_includes code lit
      then Some (''Unsafe code pattern detected: '' @ source)
      else scan_patterns ps code)"

definition scan :: "string \<Rightarrow> string option" where
  "scan code =
     (case scan_keywords dangerousKeywords code of
        Some m \<Rightarrow> Some m
      | None \<Rightarrow> scan_patterns dangerousPatterns code)"

section \<open>Snippets and the host they run on\<close>

text \<open>
  The JavaScript engine is not part of the repository. What the route needs of it is
  taken as a parameter: whether \<^verbatim>\<open>new Function\<close> accepts the text (\<open>Inl\<close> is the
  SyntaxError message) and, if so, what the body does when called with the bindings
  \<^verbatim>\<open>response\<close> and \<^verbatim>\<open>request\<close>. A body is a straight-line script: calls of
  \<^verbatim>\<open>console\<close> methods and reads of identifiers the snippet does not declare itself,
  ended by \<^verbatim>\<open>return\<close>, by \<^verbatim>\<open>throw\<close> or by a loop that never ends. Falling off the
  end is \<open>Return JUndefined\<close>.
\<close>

datatype script =
    Return jsval
  | Throw jsval
  | Forever
  | Call string "jsval list" script
  | Name string script

type_synonym program = "jsval \<Rightarrow> jsval \<Rightarrow> script"

text \<open>
  \<open>globals\<close>: the names bound in the global scope of the process (a function made by
  \<^verbatim>\<open>new Function\<close> closes over the global scope). \<open>stack_limit\<close>: how many nested calls
  the engine allows before it raises RangeError. \<open>clock\<close>: the value of the n-th
  \<^verbatim>\<open>Date.now()\<close> of a request.
\<close>

record host =
  globals :: "string list"
  stack_limit :: nat
  compile :: "string \<Rightarrow> string + program"
  clock :: "nat \<Rightarrow> int"

text \<open>An \<^verbatim>\<open>Error\<close> object, as far as the route reads it: its \<^verbatim>\<open>message\<close>.\<close>

definition js_error :: "string \<Rightarrow> jsval" where
  "js_error m = JObj [(''message'', JStr m)]"

datatype 'a outcome = Normal 'a | Raised jsval

section \<open>The console object and its overrides\<close>

text \<open>
  \<^verbatim>\<open>safeContext.console\<close> is one object with four function properties. The wrapper
  text keeps \<^verbatim>\<open>const originalConsole = console\<close>, a second reference to that same
  object, and then assigns \<^verbatim>\<open>console.log = ...\<close> and its three siblings. Objects live in
  a store, references are addresses, and a method is looked up in the store when it is
  called.
\<close>

datatype console_fn = Stub string | Capture string

type_synonym store = "nat \<Rightarrow> (string \<times> console_fn) list"

definition console_methods :: "string list" where
  "console_methods = [''log'', ''error'', ''warn'', ''info'']"

definition safeContext_console :: "(string \<times> console_fn) list" where
  "safeContext_console = map (\<lambda>m. (m, Stub m)) console_methods"

text \<open>\<^verbatim>\<open>o.m = f\<close> on the object at address \<open>r\<close>.\<close>

definition assign_method :: "store \<Rightarrow> nat \<Rightarrow> string \<Rightarrow> console_fn \<Rightarrow> store" where
  "assign_method st r m f = st(r := AList.update m f (st r))"

definition install_overrides :: "store \<Rightarrow> nat \<Rightarrow> store" where
  "install_overrides st r =
     foldl (\<lambda>st' m. assign_method st' r m (Capture m)) st console_methods"

record run_state =
  results :: "jsval list"
  ticks :: nat

definition console_entry :: "string \<Rightarrow> jsval list \<Rightarrow> int \<Rightarrow> jsval" where
  "console_entry ty args t =
     JObj [(''type'', JStr ty), (''args'', JArr args), (''timestamp'', JNum t)]"

text \<open>
  The call \<^verbatim>\<open>o.m(...args)\<close> with \<open>d\<close> stack frames left, \<open>orig\<close> the address held by
  \<^verbatim>\<open>originalConsole\<close>. A stub returns its object. An override pushes its entry, reading
  the clock, and then calls \<^verbatim>\<open>originalConsole.m(...args)\<close>.
\<close>

fun invoke :: "(nat \<Rightarrow> int) \<Rightarrow> store \<Rightarrow> nat \<Rightarrow> nat \<Rightarrow> nat \<Rightarrow> string \<Rightarrow> jsval list \<Rightarrow> run_state
                 \<Rightarrow> jsval outcome \<times> run_state" where
  "invoke clk st orig 0 r m args s =
     (Raised (js_error ''Maximum call stack size exceeded''), s)"
| "invoke clk st orig (Suc d) r m args s =
     (case map_of (st r) m of
        None \<Rightarrow> (Raised (js_error (''console.'' @ m @ '' is not a function'')), s)
      | Some (Stub ty) \<Rightarrow> (Normal (JObj [(''type'', JStr ty), (''args'', JArr args)]), s)
      | Some (Capture ty) \<Rightarrow>
          invoke clk st orig d orig ty args
            (s\<lparr>results := results s @ [console_entry ty args (clk (ticks s))],
               ticks := Suc (ticks s)\<rparr>))"

section \<open>Name resolution in the wrapper\<close>

definition safeContext_keys :: "string list" where
  "safeContext_keys =
     [''response'', ''request'', ''JSON'', ''console'', ''Object'', ''Array'', ''String'',
      ''Number'', ''Date'', ''Math'', ''RegExp'']"

text \<open>
  Besides the parameters, the wrapper text declares \<^verbatim>\<open>results\<close> and
  \<^verbatim>\<open>originalConsole\<close> in the scope that encloses the snippet, and every function body
  binds \<^verbatim>\<open>arguments\<close>. \<^verbatim>\<open>const result\<close> is declared but not yet initialised while the
  snippet runs.
\<close>

definition wrapper_locals :: "string list" where
  "wrapper_locals = [''results'', ''originalConsole'', ''arguments'']"

datatype binding = Bound | Uninitialised | Unbound

definition resolve :: "host \<Rightarrow> string \<Rightarrow> binding" where
  "resolve h n =
     (if n \<in> set wrapper_locals \<or> n \<in> set safeContext_keys then Bound
      else if n = ''result'' then Uninitialised
      else if n \<in> set (globals h) then Bound
      else Unbound)"

text \<open>
  Running the snippet inside the wrapper, with \<open>console\<close> and \<open>originalConsole\<close> the
  addresses the two variables hold; \<open>None\<close>: it never returns.
\<close>

fun run_script :: "host \<Rightarrow> store \<Rightarrow> nat \<Rightarrow> nat \<Rightarrow> script \<Rightarrow> run_state
                     \<Rightarrow> (jsval outcome \<times> run_state) option" where
  "run_script h st console originalConsole (Return v) s = Some (Normal v, s)"
| "run_script h st console originalConsole (Throw v) s = Some (Raised v, s)"
| "run_script h st console originalConsole Forever s = None"
| "run_script h st console originalConsole (Call m args rest) s =
     (case invoke (clock h) st originalConsole (stack_limit h) console m args s of
        (Raised e, s') \<Rightarrow> Some (Raised e, s')
      | (Normal v, s') \<Rightarrow> run_script h st console originalConsole rest s')"
| "run_script h st console originalConsole (Name n rest) s =
     (case resolve h n of
        Bound \<Rightarrow> run_script h st console originalConsole rest s
      | Uninitialised \<Rightarrow>
          Some (Raised (js_error (''Cannot access '' @ [CHR 0x27] @ n @ [CHR 0x27]
                                    @ '' before initialization'')), s)
      | Unbound \<Rightarrow> Some (Raised (js_error (n @ '' is not defined'')), s))"

section \<open>\<^verbatim>\<open>safeEval\<close>\<close>

text \<open>
  The function built by \<^verbatim>\<open>new Function\<close>, called with the values of \<^verbatim>\<open>safeContext\<close>.
  The console object is at address 0. The inner \<^verbatim>\<open>catch\<close> reads \<^verbatim>\<open>error.message\<close>,
  which is itself a TypeError when the snippet threw null or undefined: that error
  leaves the function (\<open>Inl\<close> with its message). The second component is the number
  of clock reads so far.
\<close>

definition func :: "host \<Rightarrow> script \<Rightarrow> nat \<Rightarrow> ((string + jsval) \<times> nat) option" where
  "func h body t =
     (let console = 0;
          st0 = (\<lambda>a. [])(console := safeContext_console);
          originalConsole = console;
          st = install_overrides st0 console
      in case run_script h st console originalConsole body \<lparr>results = [], ticks = t\<rparr> of
           None \<Rightarrow> None
         | Some (Normal v, s) \<Rightarrow>
             Some (Inr (JObj [(''result'', v), (''console'', JArr (results s)),
                              (''success'', JBool True)]), ticks s)
         | Some (Raised e, s) \<Rightarrow>
             (if e = JNull then
                Some (Inl (''Cannot read properties of null (reading ''
                           @ [CHR 0x27] @ ''message'' @ [CHR 0x27] @ '')''), ticks s)
              else if e = JUndefined then
                Some (Inl (''Cannot read properties of undefined (reading ''
                           @ [CHR 0x27] @ ''message'' @ [CHR 0x27] @ '')''), ticks s)
              else
                Some (Inr (JObj [(''result'', JNull), (''console'', JArr (results s)),
                                 (''error'', get_prop e ''message''),
                                 (''success'', JBool False)]), ticks s)))"

text \<open>The data bindings of \<^verbatim>\<open>safeContext\<close> (lines 8 and 9).\<close>

definition safeContext_response :: "jsval \<Rightarrow> jsval" where
  "safeContext_response context = js_or (get_prop context ''response'') (JObj [])"

definition safeContext_request :: "jsval \<Rightarrow> jsval" where
  "safeContext_request context = js_or (get_prop context ''request'') (JObj [])"

text \<open>
  \<^verbatim>\<open>safeEval(code, context)\<close>: \<open>Inl m\<close> is a thrown \<^verbatim>\<open>Error\<close> with message \<open>m\<close>,
  \<open>Inr r\<close> the object returned, \<open>None\<close> no return at all. The two scans throw outside
  the \<^verbatim>\<open>try\<close>; what \<^verbatim>\<open>new Function\<close> or the call throws is rethrown with a prefix
  (\<open>rethrow\<close> is the outer \<^verbatim>\<open>catch\<close> around the call).
\<close>

definition rethrow :: "((string + jsval) \<times> nat) option \<Rightarrow> ((string + jsval) \<times> nat) option" where
  "rethrow r =
     (case r of
        None \<Rightarrow> None
      | Some (Inl m, t') \<Rightarrow> Some (Inl (''Execution error: '' @ m), t')
      | Some (Inr v, t') \<Rightarrow> Some (Inr v, t'))"

definition safeEval :: "host \<Rightarrow> string \<Rightarrow> jsval \<Rightarrow> nat \<Rightarrow> ((string + jsval) \<times> nat) option" where
  "safeEval h code context t =
     (let response = safeContext_response context;
          request = safeContext_request context
      in case scan code of
           Some m \<Rightarrow> Some (Inl m, t)
         | None \<Rightarrow>
             (case compile h code of
                Inl m \<Rightarrow> Some (Inl (''Execution error: '' @ m), t)
              | Inr p \<Rightarrow>
                  rethrow (func h (p response request) t)))"

section \<open>The \<^verbatim>\<open>POST\<close> handler\<close>

record http_response =
  status :: nat
  body :: jsval

text \<open>\<^verbatim>\<open>{...o}\<close> for the object \<^verbatim>\<open>safeEval\<close> returns.\<close>

fun spread :: "jsval \<Rightarrow> (string \<times> jsval) list" where
  "spread (JObj fs) = fs"
| "spread v = []"

definition rejection :: "string \<Rightarrow> http_response" where
  "rejection m = \<lparr>status = 400, body = json_roundtrip (JObj [(''error'', JStr m)])\<rparr>"

text \<open>
  The \<^verbatim>\<open>catch\<close> block of \<^verbatim>\<open>POST\<close>, for an error with message \<open>m\<close> (it also writes the
  error to the server's own console, which no answer shows).
\<close>

definition catch_response :: "string \<Rightarrow> int \<Rightarrow> http_response" where
  "catch_response m now =
     \<lparr>status = 400,
      body = json_roundtrip
               (JObj [(''result'', JNull), (''console'', JArr []), (''error'', JStr m),
                      (''success'', JBool False), (''executionTime'', JNum 0),
                      (''timestamp'', JNum now)])\<rparr>"

text \<open>
  What \<^verbatim>\<open>POST\<close> does with the outcome of \<^verbatim>\<open>safeEval\<close>: the answer with status 200, the
  \<^verbatim>\<open>catch\<close> block when it threw, nothing when it does not return.
\<close>

definition respond :: "host \<Rightarrow> int \<Rightarrow> ((string + jsval) \<times> nat) option \<Rightarrow> http_response option" where
  "respond h startTime r =
     (case r of
        None \<Rightarrow> None
      | Some (Inl m, t) \<Rightarrow> Some (catch_response m (clock h t))
      | Some (Inr result, t) \<Rightarrow>
          Some \<lparr>status = 200,
                body = json_roundtrip
                  (JObj (spread result @
                     [(''executionTime'', JNum (clock h t - startTime)),
                      (''timestamp'', JNum (clock h (Suc t)))]))\<rparr>)"

text \<open>
  The request is \<open>Inl m\<close> when \<^verbatim>\<open>request.json()\<close> throws with message \<open>m\<close>, \<open>Inr b\<close> when
  it parses to \<open>b\<close>. Destructuring a null body throws (a parsed body is never
  undefined); of any other value that lacks them, \<^verbatim>\<open>code\<close> and \<^verbatim>\<open>context\<close> are
  undefined. \<open>None\<close>: the handler never answers.
\<close>

definition POST :: "host \<Rightarrow> string + jsval \<Rightarrow> http_response option" where
  "POST h req =
     (case req of
        Inl m \<Rightarrow> Some (catch_response m (clock h 0))
      | Inr b \<Rightarrow>
          if b = JNull \<or> b = JUndefined then
            Some (catch_response
                    (''Cannot destructure property '' @ [CHR 0x27] @ ''code'' @ [CHR 0x27]
                     @ '' of '' @ [CHR 0x27] @ ''body'' @ [CHR 0x27] @ '' as it is null.'')
                    (clock h 0))
          else
            (let code = get_prop b ''code''; context = get_prop b ''context''
             in if \<not> truthy code then Some (rejection ''Missing required field: code'')
                else (case code of
                  JStr c \<Rightarrow>
                    if length c > 10000
                    then Some (rejection ''Code too long. Maximum 10,000 characters allowed.'')
                    else
                      (let startTime = clock h 0
                       in respond h startTime (safeEval h c (js_or context (JObj [])) 1))
                | _ \<Rightarrow> Some (rejection ''Code must be a string''))))"

section \<open>The console component: \<^verbatim>\<open>executeCode\<close>\<close>

text \<open>
  \<^verbatim>\<open>src/components/javascript-console.tsx\<close>. The component sends nothing when the
  trimmed code is empty. Of an answer it keeps the \<^verbatim>\<open>console\<close> entries, giving each a
  timestamp if it has none, and then adds the entry of type \<^verbatim>\<open>result\<close>.
\<close>

definition is_space :: "char \<Rightarrow> bool" where
  "is_space c = (c \<in> set [CHR '' '', CHR 0x09, CHR 0x0A, CHR 0x0B, CHR 0x0C, CHR 0x0D])"

text \<open>\<^verbatim>\<open>{...item, timestamp: t}\<close>, for the entry objects the route sends.\<close>

definition with_timestamp :: "jsval \<Rightarrow> jsval \<Rightarrow> jsval" where
  "with_timestamp item t = JObj (AList.update ''timestamp'' t (spread item))"

text \<open>\<open>now n\<close> is the n-th \<^verbatim>\<open>Date.now()\<close> of the component.\<close>

fun stamp_items :: "(nat \<Rightarrow> int) \<Rightarrow> nat \<Rightarrow> jsval list \<Rightarrow> jsval list \<times> nat" where
  "stamp_items now n [] = ([], n)"
| "stamp_items now n (item # items) =
     (if truthy (get_prop item ''timestamp'')
      then (let (out, n') = stamp_items now n items
            in (with_timestamp item (get_prop item ''timestamp'') # out, n'))
      else (let (out, n') = stamp_items now (Suc n) items
            in (with_timestamp item (JNum (now n)) # out, n')))"

text \<open>
  The console output after an answer has arrived (\<open>Inr\<close>, the parsed body) or the
  request has failed with a message (\<open>Inl\<close>); the output was cleared before.
\<close>

definition executeCode_output :: "(nat \<Rightarrow> int) \<Rightarrow> string + jsval \<Rightarrow> jsval list" where
  "executeCode_output now r =
     (case r of
        Inl m \<Rightarrow> [console_entry ''error'' [JStr ''Execution failed:'', JStr m] (now 0)]
      | Inr result \<Rightarrow>
          (let (out, n) =
                 (case get_prop result ''console'' of
                    JArr items \<Rightarrow> stamp_items now 0 items
                  | _ \<Rightarrow> ([], 0))
           in if truthy (get_prop result ''success'') \<and> get_prop result ''result'' \<noteq> JUndefined
              then out @ [console_entry ''result'' [get_prop result ''result''] (now n)]
              else out))"

definition executeCode :: "host \<Rightarrow> (nat \<Rightarrow> int) \<Rightarrow> string \<Rightarrow> jsval \<Rightarrow> jsval \<Rightarrow> jsval list
                            \<Rightarrow> jsval list option" where
  "executeCode h now code response request prev =
     (if list_all is_space code then Some prev
      else
        (let context = JObj [(''response'', js_or response (JObj [])),
                             (''request'', js_or request (JObj []))]
         in case POST h (Inr (json_roundtrip (JObj [(''code'', JStr code),
                                                    (''context'', context)]))) of
              None \<Rightarrow> None
            | Some r \<Rightarrow> Some (executeCode_output now (Inr (body r)))))"

section \<open>The data bindings as references\<close>

text \<open>
  Lines 8 and 9 of the route bind \<^verbatim>\<open>context.response || {}\<close>: for an object that is
  the caller's object itself, not a copy. To say so, objects live in cells: a cell holds
  the JSON value of one object or array (a parsed body is a tree, so nothing inside a
  cell is shared), and a value is a primitive or the address of a cell.
\<close>

datatype ref_val = Prim jsval | Ref nat

record obj_heap =
  cells :: "nat \<Rightarrow> jsval"
  free :: nat

definition alloc :: "jsval \<Rightarrow> obj_heap \<Rightarrow> ref_val \<times> obj_heap" where
  "alloc v hp = (Ref (free hp), hp\<lparr>cells := (cells hp)(free hp := v), free := Suc (free hp)\<rparr>)"

text \<open>What \<^verbatim>\<open>request.json()\<close> makes of a JSON value: a new object for an object or array.\<close>

fun parse_value :: "jsval \<Rightarrow> obj_heap \<Rightarrow> ref_val \<times> obj_heap" where
  "parse_value (JObj fs) hp = alloc (JObj fs) hp"
| "parse_value (JArr xs) hp = alloc (JArr xs) hp"
| "parse_value v hp = (Prim v, hp)"

fun deref :: "obj_heap \<Rightarrow> ref_val \<Rightarrow> jsval" where
  "deref hp (Prim v) = v"
| "deref hp (Ref a) = cells hp a"

fun truthy_ref :: "ref_val \<Rightarrow> bool" where
  "truthy_ref (Prim v) = truthy v"
| "truthy_ref (Ref a) = True"

text \<open>\<^verbatim>\<open>x || {}\<close>: the operand itself, or a new empty object.\<close>

definition or_empty_object :: "ref_val \<Rightarrow> obj_heap \<Rightarrow> ref_val \<times> obj_heap" where
  "or_empty_object x hp = (if truthy_ref x then (x, hp) else alloc (JObj []) hp)"

text \<open>
  One evaluation, from the \<^verbatim>\<open>context\<close> of the request body to the pair of values bound
  to \<^verbatim>\<open>response\<close> and \<^verbatim>\<open>request\<close>: the body is parsed, then \<^verbatim>\<open>safeContext\<close> is built.
\<close>

definition request_json_context :: "jsval \<Rightarrow> obj_heap \<Rightarrow> (ref_val \<times> ref_val) \<times> obj_heap" where
  "request_json_context context hp =
     (let (r, hp1) = parse_value (get_prop context ''response'') hp;
          (q, hp2) = parse_value (get_prop context ''request'') hp1
      in ((r, q), hp2))"

definition safeContext_refs :: "ref_val \<times> ref_val \<Rightarrow> obj_heap \<Rightarrow> (ref_val \<times> ref_val) \<times> obj_heap" where
  "safeContext_refs c hp =
     (let (response, hp1) = or_empty_object (fst c) hp;
          (request, hp2) = or_empty_object (snd c) hp1
      in ((response, request), hp2))"

definition evaluation_bindings :: "jsval \<Rightarrow> obj_heap \<Rightarrow> (ref_val \<times> ref_val) \<times> obj_heap" where
  "evaluation_bindings context hp =
     (let (c, hp1) = request_json_context context hp in safeContext_refs c hp1)"

text \<open>
  A write \<^verbatim>\<open>x.k = v\<close> by the snippet: it changes the object \<open>x\<close> refers to. (A named
  property of an array is not part of its JSON value; a write to a primitive changes no
  object.)
\<close>

fun set_field :: "jsval \<Rightarrow> string \<Rightarrow> jsval \<Rightarrow> jsval" where
  "set_field (JObj fs) k v = JObj (AList.update k v fs)"
| "set_field x k v = x"

fun assign_prop :: "ref_val \<Rightarrow> string \<Rightarrow> jsval \<Rightarrow> obj_heap \<Rightarrow> obj_heap" where
  "assign_prop (Ref a) k v hp = hp\<lparr>cells := (cells hp)(a := set_field (cells hp a) k v)\<rparr>"
| "assign_prop (Prim x) k v hp = hp"

text \<open>The writes of one snippet, in program order.\<close>

fun assign_props :: "(ref_val \<times> string \<times> jsval) list \<Rightarrow> obj_heap \<Rightarrow> obj_heap" where
  "assign_props [] hp = hp"
| "assign_props ((x, k, v) # ws) hp = assign_props ws (assign_prop x k v hp)"

definition empty_heap :: obj_heap where
  "empty_heap = \<lparr>cells = (\<lambda>a. JUndefined), free = 0\<rparr>"

section \<open>A host for concrete evaluations\<close>

text \<open>
  Some snippets with what they do, a small stack and a clock that advances by one per
  reading. Any other text is taken as a syntax error.
\<close>

definition example_snippets :: "(string \<times> program) list" where
  \<open>example_snippets =
     [(''return response;'', \<lambda>response request. Return response),
      (''return 1;'', \<lambda>response request. Return (JNum 1)),
      (''return "eval";'', \<lambda>response request. Return (JStr ''eval'')),
      (''return results;'', \<lambda>response request. Name ''results'' (Return (JArr []))),
      (''launch("x");'', \<lambda>response request. Name ''launch'' (Return JUndefined)),
      (''console.log("a"); console.log("b");'',
         \<lambda>response request.
           Call ''log'' [JStr ''a''] (Call ''log'' [JStr ''b''] (Return JUndefined))),
      (''while (true) {}'', \<lambda>response request. Forever),
      ('' '', \<lambda>response request. Return JUndefined)]\<close>

definition example_host :: host where
  "example_host =
     \<lparr>globals = [''undefined'', ''globalThis'', ''parseInt'', ''fetch'', ''setTimeout''],
      stack_limit = 3,
      compile = (\<lambda>code. case map_of example_snippets code of
                           Some p \<Rightarrow> Inr p
                         | None \<Rightarrow> Inl ''Unexpected identifier''),
      clock = (\<lambda>n. 1000 + int n)\<rparr>"

definition post_code :: "string \<Rightarrow> string + jsval" where
  "post_code code = Inr (JObj [(''code'', JStr code)])"

section \<open>Auxiliary notions for the statements\<close>




section \<open>Properties of the evaluation route\<close>

lemmas eval_defs = POST_def respond_def post_code_def example_host_def example_snippets_def safeEval_def
  rethrow_def scan_def dangerousKeywords_def dangerousPatterns_def func_def
  install_overrides_def console_methods_def assign_method_def safeContext_console_def
  console_entry_def js_error_def catch_response_def rejection_def js_or_def
  safeContext_response_def safeContext_request_def

lemma falsy_values:
  "(\<not> truthy v) = (v \<in> {JUndefined, JNull, JBool False, JNum 0, JStr []})"
  by (cases v) auto

subsection \<open>The console overrides\<close>

lemma func_store:
  "install_overrides ((\<lambda>a. [])(0 := safeContext_console)) 0 0
     = map (\<lambda>m. (m, Capture m)) console_methods"
  by (simp add: install_overrides_def console_methods_def assign_method_def
        safeContext_console_def)

lemma map_of_overrides:
  "map_of (map (\<lambda>m. (m, Capture m)) console_methods) m
     = (if m \<in> set console_methods then Some (Capture m) else None)"
  by (simp add: console_methods_def)

lemma invoke_override:
  assumes st: "st c = map (\<lambda>m. (m, Capture m)) console_methods"
    and m: "m \<in> set console_methods"
  shows "invoke clk st c d c m args s
           = (Raised (js_error ''Maximum call stack size exceeded''),
              s\<lparr>results := results s
                              @ map (\<lambda>i. console_entry m args (clk (ticks s + i))) [0..<d],
                ticks := ticks s + d\<rparr>)"
proof (induction d arbitrary: s)
  case 0
  show ?case by simp
next
  case (Suc d)
  have up: "[0..<Suc d] = 0 # map Suc [0..<d]"
    by (simp add: map_Suc_upt upt_conv_Cons del: upt_Suc)
  show ?case
    using m by (simp add: st map_of_overrides Suc.IH up o_def del: upt_Suc)
qed








subsection \<open>Entries on the way to the console component\<close>

lemma json_roundtrip_undefined: "(json_roundtrip v = JUndefined) = (v = JUndefined)"
  by (cases v) auto







subsection \<open>Bindings and the objects of the caller\<close>

lemma parse_value_range:
  assumes "parse_value v hp = (x, hp')"
  shows "free hp \<le> free hp'"
    and "x = Ref a \<Longrightarrow> free hp \<le> a \<and> a < free hp'"
    and "a' < free hp \<Longrightarrow> cells hp' a' = cells hp a'"
    and "deref hp' x = v"
    and "truthy_ref x = truthy v"
  using assms by (cases v; auto simp: alloc_def)+

lemma or_empty_object_range:
  assumes "or_empty_object x hp = (y, hp')"
  shows "free hp \<le> free hp'"
    and "y = Ref a \<Longrightarrow> x = Ref a \<or> (free hp \<le> a \<and> a < free hp')"
    and "a' < free hp \<Longrightarrow> cells hp' a' = cells hp a'"
    and "deref hp' y = (if truthy_ref x then deref hp x else JObj [])"
    and "truthy_ref x \<Longrightarrow> y = x \<and> hp' = hp"
  using assms by (auto simp: or_empty_object_def alloc_def split: if_splits)

text \<open>
  The store view agrees with the value view of \<^verbatim>\<open>safeContext\<close>: what the two bindings of
  an evaluation refer to are the values \<open>safeContext_response\<close> and
  \<open>safeContext_request\<close> of its context, held in cells that did not exist before.
\<close>

lemma evaluation_bindings_range:
  assumes "evaluation_bindings ctx hp = ((r, q), hp')"
  shows "free hp \<le> free hp'"
    and "r = Ref a \<Longrightarrow> free hp \<le> a \<and> a < free hp'"
    and "q = Ref a \<Longrightarrow> free hp \<le> a \<and> a < free hp'"
    and "a' < free hp \<Longrightarrow> cells hp' a' = cells hp a'"
    and "deref hp' r = safeContext_response ctx"
    and "deref hp' q = safeContext_request ctx"
proof -
  obtain r0 hp1 where p1: "parse_value (get_prop ctx ''response'') hp = (r0, hp1)"
    by (cases "parse_value (get_prop ctx ''response'') hp")
  obtain q0 hp2 where p2: "parse_value (get_prop ctx ''request'') hp1 = (q0, hp2)"
    by (cases "parse_value (get_prop ctx ''request'') hp1")
  obtain r' hp3 where o1: "or_empty_object r0 hp2 = (r', hp3)"
    by (cases "or_empty_object r0 hp2")
  obtain q' hp4 where o2: "or_empty_object q0 hp3 = (q', hp4)"
    by (cases "or_empty_object q0 hp3")
  from assms p1 p2 o1 o2 have e: "r = r'" "q = q'" "hp' = hp4"
    by (simp_all add: evaluation_bindings_def request_json_context_def safeContext_refs_def)
  note P1 = parse_value_range[OF p1] and P2 = parse_value_range[OF p2]
    and O1 = or_empty_object_range[OF o1] and O2 = or_empty_object_range[OF o2]
  show "free hp \<le> free hp'"
    using P1(1) P2(1) O1(1) O2(1) e by simp
  show "r = Ref a \<Longrightarrow> free hp \<le> a \<and> a < free hp'"
    using P1(1) P1(2)[of a] P2(1) O1(1) O1(2)[of a] O2(1) e by auto
  show "q = Ref a \<Longrightarrow> free hp \<le> a \<and> a < free hp'"
    using P1(1) P2(1) P2(2)[of a] O1(1) O2(1) O2(2)[of a] e by auto
  show "a' < free hp \<Longrightarrow> cells hp' a' = cells hp a'"
    using P1(1) P1(3)[of a'] P2(1) P2(3)[of a'] O1(1) O1(3)[of a'] O2(3)[of a'] e by simp
  have r0: "deref hp2 r0 = get_prop ctx ''response''"
    using P1(2,4) P2(3) by (cases r0) auto
  have "deref hp3 r' = js_or (get_prop ctx ''response'') (JObj [])"
    using O1(4) r0 P1(5) by (simp add: js_or_def)
  moreover have "deref hp4 r' = deref hp3 r'"
    using O1(1,2) P1(1,2) P2(1) O2(3) by (cases r'; cases r0) auto
  ultimately show "deref hp' r = safeContext_response ctx"
    using e by (simp add: safeContext_response_def)
  show "deref hp' q = safeContext_request ctx"
    using O2(4) P2(4,5) O1(5) O1(3) P2(2) e
    by (cases q0) (auto simp: safeContext_request_def js_or_def or_empty_object_def alloc_def
          split: if_splits)
qed

lemma request_json_context_range:
  assumes "request_json_context ctx hp = ((r0, q0), hp')"
  shows "free hp \<le> free hp'"
    and "r0 = Ref a \<Longrightarrow> free hp \<le> a \<and> a < free hp'"
    and "q0 = Ref a \<Longrightarrow> free hp \<le> a \<and> a < free hp'"
    and "a' < free hp \<Longrightarrow> cells hp' a' = cells hp a'"
    and "deref hp' r0 = get_prop ctx ''response''"
    and "deref hp' q0 = get_prop ctx ''request''"
    and "truthy_ref r0 = truthy (get_prop ctx ''response'')"
    and "truthy_ref q0 = truthy (get_prop ctx ''request'')"
proof -
  obtain r1 hp1 where p1: "parse_value (get_prop ctx ''response'') hp = (r1, hp1)"
    by (cases "parse_value (get_prop ctx ''response'') hp")
  obtain q1 hp2 where p2: "parse_value (get_prop ctx ''request'') hp1 = (q1, hp2)"
    by (cases "parse_value (get_prop ctx ''request'') hp1")
  from assms p1 p2 have e: "r0 = r1" "q0 = q1" "hp' = hp2"
    by (simp_all add: request_json_context_def)
  note P1 = parse_value_range[OF p1] and P2 = parse_value_range[OF p2]
  show "free hp \<le> free hp'" using P1(1) P2(1) e by simp
  show "r0 = Ref a \<Longrightarrow> free hp \<le> a \<and> a < free hp'"
    using P1(2)[of a] P2(1) e by auto
  show "q0 = Ref a \<Longrightarrow> free hp \<le> a \<and> a < free hp'"
    using P1(1) P2(2)[of a] e by auto
  show "a' < free hp \<Longrightarrow> cells hp' a' = cells hp a'"
    using P1(1) P1(3)[of a'] P2(3)[of a'] e by simp
  show "deref hp' r0 = get_prop ctx ''response''"
    using P1(2) P1(4) P2(3) e by (cases r1) auto
  show "deref hp' q0 = get_prop ctx ''request''" using P2(4) e by simp
  show "truthy_ref r0 = truthy (get_prop ctx ''response'')" using P1(5) e by simp
  show "truthy_ref q0 = truthy (get_prop ctx ''request'')" using P2(5) e by simp
qed

lemma safeContext_refs_range:
  assumes "safeContext_refs (r0, q0) hp = ((r, q), hp')"
    and "\<And>a. r0 = Ref a \<Longrightarrow> a < free hp" and "\<And>a. q0 = Ref a \<Longrightarrow> a < free hp"
  shows "r = Ref a \<Longrightarrow> r0 = Ref a \<or> free hp \<le> a"
    and "q = Ref a \<Longrightarrow> q0 = Ref a \<or> free hp \<le> a"
    and "deref hp' r = (if truthy_ref r0 then deref hp r0 else JObj [])"
    and "deref hp' q = (if truthy_ref q0 then deref hp q0 else JObj [])"
proof -
  obtain r' hp1 where o1: "or_empty_object r0 hp = (r', hp1)"
    by (cases "or_empty_object r0 hp")
  obtain q' hp2 where o2: "or_empty_object q0 hp1 = (q', hp2)"
    by (cases "or_empty_object q0 hp1")
  from assms(1) o1 o2 have e: "r = r'" "q = q'" "hp' = hp2"
    by (simp_all add: safeContext_refs_def)
  note O1 = or_empty_object_range[OF o1] and O2 = or_empty_object_range[OF o2]
  show "r = Ref a \<Longrightarrow> r0 = Ref a \<or> free hp \<le> a" using O1(2)[of a] e by auto
  show "q = Ref a \<Longrightarrow> q0 = Ref a \<or> free hp \<le> a" using O1(1) O2(2)[of a] e by auto
  have "deref hp2 r' = deref hp1 r'"
    using O1(1) O1(2) O2(3) assms(2) by (cases r'; cases r0) auto
  then show "deref hp' r = (if truthy_ref r0 then deref hp r0 else JObj [])"
    using O1(4) e by simp
  have "deref hp1 q0 = deref hp q0"
    using O1(3) assms(3) by (cases q0) auto
  then show "deref hp' q = (if truthy_ref q0 then deref hp q0 else JObj [])"
    using O2(4) e by simp
qed

lemma assign_props_other:
  "\<forall>a. Ref a \<in> fst ` set ws \<longrightarrow> a \<noteq> b \<Longrightarrow>
     cells (assign_props ws hp) b = cells hp b \<and> free (assign_props ws hp) = free hp"
proof (induction ws arbitrary: hp)
  case Nil
  show ?case by simp
next
  case (Cons w ws)
  obtain x k v where w: "w = (x, k, v)" by (cases w)
  from Cons.prems have r: "\<forall>a. Ref a \<in> fst ` set ws \<longrightarrow> a \<noteq> b" by auto
  from Cons.prems w have x: "x \<noteq> Ref b" by auto
  have "cells (assign_prop x k v hp) b = cells hp b \<and> free (assign_prop x k v hp) = free hp"
    using x by (cases x) auto
  with Cons.IH[OF r, of "assign_prop x k v hp"] show ?case by (simp add: w)
qed

lemma assign_props_free: "free (assign_props ws hp) = free hp"
proof (induction ws arbitrary: hp)
  case Nil
  show ?case by simp
next
  case (Cons w ws)
  obtain x k v where w: "w = (x, k, v)" by (cases w)
  have "free (assign_prop x k v hp) = free hp" by (cases x) auto
  with Cons.IH[of "assign_prop x k v hp"] show ?case by (simp add: w)
qed

subsection \<open>Default bindings\<close>

text \<open>
  C10. When \<^verbatim>\<open>context.response\<close> (or \<^verbatim>\<open>context.request\<close>) is any falsy value, that is
  undefined, null, false, 0 or the empty string, the symbol is bound to the empty object,
  and the snippet is run on these bindings.
\<close>

theorem falsy_context_value_bound_to_empty_object:
  "(get_prop context ''response'' \<in> {JUndefined, JNull, JBool False, JNum 0, JStr []}
      \<longrightarrow> safeContext_response context = JObj [])
   \<and> (get_prop context ''request'' \<in> {JUndefined, JNull, JBool False, JNum 0, JStr []}
      \<longrightarrow> safeContext_request context = JObj [])
   \<and> (scan code = None \<longrightarrow> compile h code = Inr p \<longrightarrow>
        safeEval h code context t
          = rethrow (func h (p (safeContext_response context) (safeContext_request context)) t))"
proof (intro conjI impI)
  assume "get_prop context ''response'' \<in> {JUndefined, JNull, JBool False, JNum 0, JStr []}"
  then have "\<not> truthy (get_prop context ''response'')" by (simp only: falsy_values)
  then show "safeContext_response context = JObj []"
    by (simp add: safeContext_response_def js_or_def)
next
  assume "get_prop context ''request'' \<in> {JUndefined, JNull, JBool False, JNum 0, JStr []}"
  then have "\<not> truthy (get_prop context ''request'')" by (simp only: falsy_values)
  then show "safeContext_request context = JObj []"
    by (simp add: safeContext_request_def js_or_def)
next
  assume "scan code = None" "compile h code = Inr p"
  then show "safeEval h code context t
          = rethrow (func h (p (safeContext_response context) (safeContext_request context)) t)"
    by (simp add: safeEval_def)
qed

theorem falsy_context_value_bound_to_empty_object_witness:
  "get_prop (JObj [(''response'', JNum 0), (''request'', JNull)]) ''response''
      \<in> {JUndefined, JNull, JBool False, JNum 0, JStr []}
   \<and> get_prop (JObj [(''response'', JNum 0), (''request'', JNull)]) ''request''
      \<in> {JUndefined, JNull, JBool False, JNum 0, JStr []}
   \<and> scan ''return response;'' = None
   \<and> compile example_host ''return response;'' = Inr (\<lambda>response request. Return response)
   \<and> safeContext_response (JObj [(''response'', JNum 0), (''request'', JNull)]) = JObj []
   \<and> safeContext_request (JObj [(''response'', JNum 0), (''request'', JNull)]) = JObj []
   \<and> safeEval example_host ''return response;''
        (JObj [(''response'', JNum 0), (''request'', JNull)]) 1
      = Some (Inr (JObj [(''result'', JObj []), (''console'', JArr []),
                         (''success'', JBool True)]), 1)"
proof -
  let ?ctx = "JObj [(''response'', JNum 0), (''request'', JNull)]"
  have a: "get_prop ?ctx ''response'' \<in> {JUndefined, JNull, JBool False, JNum 0, JStr []}"
    by simp
  have b: "get_prop ?ctx ''request'' \<in> {JUndefined, JNull, JBool False, JNum 0, JStr []}"
    by simp
  have c: "scan ''return response;'' = None"
    by (simp add: scan_def dangerousKeywords_def dangerousPatterns_def)
  have d: "compile example_host ''return response;'' = Inr (\<lambda>response request. Return response)"
    by (simp add: example_host_def example_snippets_def)
  note t = falsy_context_value_bound_to_empty_object
             [of ?ctx "''return response;''" example_host "\<lambda>response request. Return response" 1]
  from t a have r1: "safeContext_response ?ctx = JObj []" by blast
  from t b have r2: "safeContext_request ?ctx = JObj []" by blast
  from t c d have r3: "safeEval example_host ''return response;'' ?ctx 1
      = rethrow (func example_host ((\<lambda>response request. Return response)
          (safeContext_response ?ctx) (safeContext_request ?ctx)) 1)" by blast
  have "rethrow (func example_host ((\<lambda>response request. Return response)
          (safeContext_response ?ctx) (safeContext_request ?ctx)) 1)
        = Some (Inr (JObj [(''result'', JObj []), (''console'', JArr []),
                         (''success'', JBool True)]), 1)"
    unfolding r1 r2 by (simp add: rethrow_def func_def)
  with r3 a b c d r1 r2 show ?thesis by simp
qed

subsection \<open>Snippets that do not terminate\<close>

text \<open>
  C1. The route has no deadline: for a snippet that runs forever the handler never
  produces an answer, so no answer reports a timeout.
\<close>

theorem infinite_loop_never_answers:
  \<open>POST example_host (post_code ''while (true) {}'') = None\<close>
  by (simp add: eval_defs)

subsection \<open>Console calls\<close>

text \<open>
  Inside the generated function a call of any of the four console methods pushes its
  entry and calls itself again through \<^verbatim>\<open>originalConsole\<close>, which is the same object:
  it ends with the engine's RangeError once the stack is used up, and the rest of the
  snippet is not run.
\<close>

lemma func_console_call:
  assumes "m \<in> set console_methods"
  shows "func h (Call m args rest) t
           = Some (Inr (JObj [(''result'', JNull),
                              (''console'',
                                 JArr (map (\<lambda>i. console_entry m args (clock h (t + i)))
                                         [0..<stack_limit h])),
                              (''error'', JStr ''Maximum call stack size exceeded''),
                              (''success'', JBool False)]),
                   t + stack_limit h)"
proof -
  let ?st = "install_overrides ((\<lambda>a. [])(0 := safeContext_console)) 0"
  have st: "?st 0 = map (\<lambda>m. (m, Capture m)) console_methods" by (rule func_store)
  show ?thesis
    by (simp add: func_def invoke_override[of ?st 0, OF st assms] js_error_def)
qed

text \<open>
  C7. For the snippet that logs \<^verbatim>\<open>"a"\<close> and then \<^verbatim>\<open>"b"\<close> the answer does not hold the two
  entries in order: on a host with room for three nested calls it holds three copies of
  the first entry and none of the second, and reports a failure.
\<close>

theorem console_call_overflows_the_stack:
  \<open>POST example_host (post_code ''console.log("a"); console.log("b");'')
     = Some \<lparr>status = 200,
             body = JObj [(''result'', JNull),
                          (''console'',
                             JArr [console_entry ''log'' [JStr ''a''] 1001,
                                   console_entry ''log'' [JStr ''a''] 1002,
                                   console_entry ''log'' [JStr ''a''] 1003]),
                          (''error'', JStr ''Maximum call stack size exceeded''),
                          (''success'', JBool False),
                          (''executionTime'', JNum 4),
                          (''timestamp'', JNum 1005)]\<rparr>\<close>
  by (simp add: eval_defs numeral_3_eq_3)

subsection \<open>The scope of the snippet\<close>




subsection \<open>The scan reports its first hit\<close>

lemma scan_keywords_hit:
  "k \<in> set ks \<Longrightarrow> str_includes c k \<Longrightarrow>
     \<exists>k'\<in>set ks. str_includes c k'
        \<and> scan_keywords ks c = Some (''Unsafe code detected: '' @ k' @ '' is not allowed'')"
  by (induction ks) auto

lemma scan_keywords_none:
  "\<forall>k\<in>set ks. \<not> str_includes c k \<Longrightarrow> scan_keywords ks c = None"
  by (induction ks) auto

lemma scan_patterns_hit:
  "(src, lit) \<in> set ps \<Longrightarrow> str_includes c lit \<Longrightarrow>
     \<exists>src' lit'. (src', lit') \<in> set ps \<and> str_includes c lit'
        \<and> scan_patterns ps c = Some (''Unsafe code pattern detected: '' @ src')"
proof (induction ps)
  case Nil
  then show ?case by simp
next
  case (Cons p ps)
  obtain s l where p: "p = (s, l)" by (cases p)
  show ?case
  proof (cases "str_includes c l")
    case True
    then have "(s, l) \<in> set (p # ps) \<and> str_includes c l
        \<and> scan_patterns (p # ps) c = Some (''Unsafe code pattern detected: '' @ s)"
      by (simp add: p)
    then show ?thesis by blast
  next
    case False
    with Cons.prems p have "(src, lit) \<in> set ps" by auto
    from Cons.IH[OF this Cons.prems(2)] obtain src' lit' where
      "(src', lit') \<in> set ps" "str_includes c lit'"
      "scan_patterns ps c = Some (''Unsafe code pattern detected: '' @ src')"
      by blast
    with False have "(src', lit') \<in> set (p # ps) \<and> str_includes c lit'
        \<and> scan_patterns (p # ps) c = Some (''Unsafe code pattern detected: '' @ src')"
      by (simp add: p)
    then show ?thesis by blast
  qed
qed

lemma POST_scan_hit:
  assumes "get_prop b ''code'' = JStr c" "c \<noteq> []" "length c \<le> 10000" "scan c = Some m"
  shows "POST h (Inr b) = Some (catch_response m (clock h 1))"
proof -
  from assms(1) have "b \<noteq> JNull" "b \<noteq> JUndefined" by auto
  with assms show ?thesis by (simp add: POST_def safeEval_def respond_def)
qed

text \<open>
  C4, as the spec states it, fails: for the snippet that calls \<^verbatim>\<open>fetch\<close> the message says
  that unsafe code was detected and names the token, while an unresolved reference (here
  \<^verbatim>\<open>launch\<close>) is reported as \<^verbatim>\<open>launch is not defined\<close> with status 200.
\<close>

theorem blocked_name_reported_as_unsafe:
  \<open>POST example_host (post_code ''fetch("x");'')
     = Some \<lparr>status = 400,
             body = JObj [(''result'', JNull), (''console'', JArr []),
                          (''error'', JStr ''Unsafe code detected: fetch is not allowed''),
                          (''success'', JBool False), (''executionTime'', JNum 0),
                          (''timestamp'', JNum 1001)]\<rparr>
   \<and> POST example_host (post_code ''launch("x");'')
     = Some \<lparr>status = 200,
             body = JObj [(''result'', JNull), (''console'', JArr []),
                          (''error'', JStr ''launch is not defined''),
                          (''success'', JBool False), (''executionTime'', JNum 1),
                          (''timestamp'', JNum 1002)]\<rparr>\<close>
  by (simp add: eval_defs safeContext_keys_def resolve_def wrapper_locals_def)

text \<open>
  C4, amended. For every admitted snippet (a non-empty string of at most 10,000
  characters) whose text contains a blocked keyword, the route does not run it and
  answers through its \<^verbatim>\<open>catch\<close> block, status 400, with the message
  \<^verbatim>\<open>Unsafe code detected: k is not allowed\<close> for a blocked keyword \<open>k\<close> that occurs in the
  text; when no keyword but a blocked pattern occurs, the message is
  \<^verbatim>\<open>Unsafe code pattern detected:\<close> followed by the source of such a pattern.
\<close>

theorem blocked_snippet_names_the_filter:
  assumes "get_prop b ''code'' = JStr c" "c \<noteq> []" "length c \<le> 10000"
  shows "(k \<in> set dangerousKeywords \<longrightarrow> str_includes c k \<longrightarrow>
            (\<exists>k'\<in>set dangerousKeywords. str_includes c k'
               \<and> POST h (Inr b)
                   = Some (catch_response
                             (''Unsafe code detected: '' @ k' @ '' is not allowed'')
                             (clock h 1))))
       \<and> ((\<forall>k\<in>set dangerousKeywords. \<not> str_includes c k) \<longrightarrow>
            (src, lit) \<in> set dangerousPatterns \<longrightarrow> str_includes c lit \<longrightarrow>
            (\<exists>src' lit'. (src', lit') \<in> set dangerousPatterns \<and> str_includes c lit'
               \<and> POST h (Inr b)
                   = Some (catch_response (''Unsafe code pattern detected: '' @ src')
                             (clock h 1))))"
proof (intro conjI impI)
  assume "k \<in> set dangerousKeywords" "str_includes c k"
  from scan_keywords_hit[OF this] obtain k' where k': "k' \<in> set dangerousKeywords"
    "str_includes c k'"
    "scan_keywords dangerousKeywords c
       = Some (''Unsafe code detected: '' @ k' @ '' is not allowed'')"
    by blast
  from k'(3) have "scan c = Some (''Unsafe code detected: '' @ k' @ '' is not allowed'')"
    by (simp add: scan_def)
  from POST_scan_hit[OF assms this] k'(1,2)
  show "\<exists>k'\<in>set dangerousKeywords. str_includes c k'
               \<and> POST h (Inr b)
                   = Some (catch_response
                             (''Unsafe code detected: '' @ k' @ '' is not allowed'')
                             (clock h 1))"
    by blast
next
  assume n: "\<forall>k\<in>set dangerousKeywords. \<not> str_includes c k"
    and p: "(src, lit) \<in> set dangerousPatterns" "str_includes c lit"
  from scan_patterns_hit[OF p] obtain src' lit' where q: "(src', lit') \<in> set dangerousPatterns"
    "str_includes c lit'"
    "scan_patterns dangerousPatterns c = Some (''Unsafe code pattern detected: '' @ src')"
    by blast
  from q(3) scan_keywords_none[OF n]
  have "scan c = Some (''Unsafe code pattern detected: '' @ src')"
    by (simp add: scan_def)
  from POST_scan_hit[OF assms this] q(1,2)
  show "\<exists>src' lit'. (src', lit') \<in> set dangerousPatterns \<and> str_includes c lit'
               \<and> POST h (Inr b)
                   = Some (catch_response (''Unsafe code pattern detected: '' @ src')
                             (clock h 1))"
    by blast
qed

theorem blocked_snippet_names_the_filter_witness:
  \<open>get_prop (JObj [(''code'', JStr ''setTimeout(f, 0);'')]) ''code''
      = JStr ''setTimeout(f, 0);''
   \<and> ''setTimeout'' \<in> set dangerousKeywords
   \<and> str_includes ''setTimeout(f, 0);'' ''setTimeout''
   \<and> POST example_host (post_code ''setTimeout(f, 0);'')
       = Some (catch_response ''Unsafe code detected: setTimeout is not allowed'' 1001)
   \<and> (''window'', ''window'') \<in> set dangerousPatterns
   \<and> str_includes ''return window;'' ''window''
   \<and> POST example_host (post_code ''return window;'')
       = Some (catch_response ''Unsafe code pattern detected: window'' 1001)\<close>
proof -
  let ?c = "''setTimeout(f, 0);''" and ?d = "''return window;''"
  have a: "get_prop (JObj [(''code'', JStr ?c)]) ''code'' = JStr ?c" "?c \<noteq> []"
    "length ?c \<le> 10000" by simp_all
  have b: "''setTimeout'' \<in> set dangerousKeywords" "str_includes ?c ''setTimeout''"
    by (simp_all add: dangerousKeywords_def)
  have a': "get_prop (JObj [(''code'', JStr ?d)]) ''code'' = JStr ?d" "?d \<noteq> []"
    "length ?d \<le> 10000" by simp_all
  have b': "\<forall>k\<in>set dangerousKeywords. \<not> str_includes ?d k"
    "(''window'', ''window'') \<in> set dangerousPatterns" "str_includes ?d ''window''"
    by (simp_all add: dangerousKeywords_def dangerousPatterns_def)
  from blocked_snippet_names_the_filter[OF a, of "''setTimeout''" example_host] b
  obtain k' where k: "k' \<in> set dangerousKeywords" "str_includes ?c k'"
    "POST example_host (Inr (JObj [(''code'', JStr ?c)]))
       = Some (catch_response (''Unsafe code detected: '' @ k' @ '' is not allowed'')
                 (clock example_host 1))"
    by blast
  have "POST example_host (Inr (JObj [(''code'', JStr ?c)]))
       = Some (catch_response ''Unsafe code detected: setTimeout is not allowed'' 1001)"
    by (simp add: eval_defs)
  then have 1: "POST example_host (post_code ?c)
       = Some (catch_response ''Unsafe code detected: setTimeout is not allowed'' 1001)"
    using k by (simp add: post_code_def)
  from blocked_snippet_names_the_filter[OF a', of _ example_host "''window''" "''window''"] b'
  obtain s' l' where "(s', l') \<in> set dangerousPatterns" "str_includes ?d l'"
    "POST example_host (Inr (JObj [(''code'', JStr ?d)]))
       = Some (catch_response (''Unsafe code pattern detected: '' @ s')
                 (clock example_host 1))"
    by blast
  moreover have "POST example_host (Inr (JObj [(''code'', JStr ?d)]))
       = Some (catch_response ''Unsafe code pattern detected: window'' 1001)"
    by (simp add: eval_defs)
  ultimately have 2: "POST example_host (post_code ?d)
       = Some (catch_response ''Unsafe code pattern detected: window'' 1001)"
    by (simp add: post_code_def)
  from a b b' 1 2 show ?thesis by simp
qed

subsection \<open>The shape of the answers\<close>




subsection \<open>Whitespace and the scan\<close>

lemma blank_excludes:
  "list_all is_space c \<Longrightarrow> \<not> is_space x \<Longrightarrow> \<not> str_includes c (x # xs)"
  by (induction c) auto

lemma blank_scan: "list_all is_space c \<Longrightarrow> scan c = None"
  by (simp add: scan_def dangerousKeywords_def dangerousPatterns_def blank_excludes
        is_space_def)

text \<open>
  C9, as the spec states it, fails: the code consisting of one space is not rejected;
  the route runs it and answers with \<^verbatim>\<open>success = true\<close>.
\<close>

theorem whitespace_code_is_executed:
  \<open>list_all is_space '' ''
   \<and> POST example_host (post_code '' '')
       = Some \<lparr>status = 200,
               body = JObj [(''console'', JArr []), (''success'', JBool True),
                            (''executionTime'', JNum 1), (''timestamp'', JNum 1002)]\<rparr>\<close>
  by (simp add: eval_defs is_space_def)

text \<open>
  C9, amended. A request whose code is missing or falsy, the empty string included, is
  rejected with status 400 and the message \<^verbatim>\<open>Missing required field: code\<close>, whatever the
  host. Code that is not empty and consists of whitespace only (at most 10,000
  characters) is admitted by the route: it passes the scan and is handed to the engine
  like any other snippet. Only the console component skips it: it sends no request when
  the trimmed code is empty.
\<close>

theorem empty_code_rejected_blank_code_admitted:
  "(b \<noteq> JNull \<longrightarrow> b \<noteq> JUndefined \<longrightarrow> \<not> truthy (get_prop b ''code'') \<longrightarrow>
      POST h (Inr b) = Some (rejection ''Missing required field: code''))
   \<and> (get_prop b ''code'' = JStr c \<longrightarrow> c \<noteq> [] \<longrightarrow> list_all is_space c \<longrightarrow>
        length c \<le> 10000 \<longrightarrow> compile h c = Inr p \<longrightarrow>
        POST h (Inr b)
          = respond h (clock h 0)
              (rethrow (func h (p (safeContext_response (js_or (get_prop b ''context'') (JObj [])))
                                  (safeContext_request (js_or (get_prop b ''context'') (JObj []))))
                          1)))
   \<and> (list_all is_space code \<longrightarrow> executeCode h now code response request prev = Some prev)"
proof (intro conjI impI)
  assume "b \<noteq> JNull" "b \<noteq> JUndefined" "\<not> truthy (get_prop b ''code'')"
  then show "POST h (Inr b) = Some (rejection ''Missing required field: code'')"
    by (simp add: POST_def)
next
  assume c: "get_prop b ''code'' = JStr c" "c \<noteq> []" "list_all is_space c"
    "length c \<le> 10000" "compile h c = Inr p"
  from c(1) have b: "b \<noteq> JNull" "b \<noteq> JUndefined" by auto
  from c(3) have s: "scan c = None" by (rule blank_scan)
  from b c s show "POST h (Inr b)
          = respond h (clock h 0)
              (rethrow (func h (p (safeContext_response (js_or (get_prop b ''context'') (JObj [])))
                                  (safeContext_request (js_or (get_prop b ''context'') (JObj []))))
                          1))"
    by (simp add: POST_def safeEval_def)
next
  assume "list_all is_space code"
  then show "executeCode h now code response request prev = Some prev"
    by (simp add: executeCode_def)
qed

theorem empty_code_rejected_blank_code_admitted_witness:
  \<open>POST example_host (post_code '''') = Some (rejection ''Missing required field: code'')
   \<and> POST example_host (post_code '' '')
       = Some \<lparr>status = 200,
               body = JObj [(''console'', JArr []), (''success'', JBool True),
                            (''executionTime'', JNum 1), (''timestamp'', JNum 1002)]\<rparr>
   \<and> executeCode example_host (\<lambda>n. 2000 + int n) '' '' JNull JNull [] = Some []\<close>
proof -
  note a = empty_code_rejected_blank_code_admitted
             [where b = "JObj [(''code'', JStr '''')]" and h = example_host]
  note b = empty_code_rejected_blank_code_admitted
             [where b = "JObj [(''code'', JStr '' '')]" and h = example_host and c = "'' ''"
                and p = "\<lambda>response request. Return JUndefined"]
  note c = empty_code_rejected_blank_code_admitted
             [where code = "'' ''" and h = example_host and now = "\<lambda>n. 2000 + int n"
                and response = JNull and request = JNull and prev = "[]"]
  have 1: "POST example_host (post_code '''')
             = Some (rejection ''Missing required field: code'')"
    using a by (simp add: post_code_def)
  have "compile example_host '' '' = Inr (\<lambda>response request. Return JUndefined)"
    by (simp add: example_host_def example_snippets_def)
  with b have "POST example_host (post_code '' '')
          = respond example_host (clock example_host 0)
              (rethrow (func example_host (Return JUndefined) 1))"
    by (simp add: post_code_def is_space_def)
  then have 2: "POST example_host (post_code '' '')
       = Some \<lparr>status = 200,
               body = JObj [(''console'', JArr []), (''success'', JBool True),
                            (''executionTime'', JNum 1), (''timestamp'', JNum 1002)]\<rparr>"
    by (simp add: respond_def rethrow_def func_def example_host_def)
  have 3: "executeCode example_host (\<lambda>n. 2000 + int n) '' '' JNull JNull [] = Some []"
    using c by (simp add: is_space_def)
  from 1 2 3 show ?thesis by simp
qed

subsection \<open>Snippets that return\<close>






subsection \<open>The result entry of the console component\<close>



subsection \<open>Shared bindings, separate evaluations\<close>

lemma safeContext_refs_frame:
  assumes "safeContext_refs c hp = (b, hp')"
  shows "free hp \<le> free hp'" and "a' < free hp \<Longrightarrow> cells hp' a' = cells hp a'"
proof -
  obtain r' hp1 where o1: "or_empty_object (fst c) hp = (r', hp1)"
    by (cases "or_empty_object (fst c) hp")
  obtain q' hp2 where o2: "or_empty_object (snd c) hp1 = (q', hp2)"
    by (cases "or_empty_object (snd c) hp1")
  from assms o1 o2 have e: "hp' = hp2" by (simp add: safeContext_refs_def)
  note O1 = or_empty_object_range[OF o1] and O2 = or_empty_object_range[OF o2]
  show "free hp \<le> free hp'" using O1(1) O2(1) e by simp
  show "a' < free hp \<Longrightarrow> cells hp' a' = cells hp a'"
    using O1(1) O1(3)[of a'] O2(3)[of a'] e by simp
qed

lemma later_evaluation_reads_its_own_values:
  assumes A: "request_json_context ctx1 hp = ((r10, q10), hpa)"
    and B: "request_json_context ctx2 hpa = ((r20, q20), hpb)"
    and C: "safeContext_refs (r10, q10) hpb = ((r1, q1), hpc)"
    and W: "fst ` set ws \<subseteq> {r1, q1}"
    and D: "safeContext_refs (r20, q20) (assign_props ws hpc) = ((r2, q2), hpe)"
  shows "deref hpe r2 = safeContext_response ctx2 \<and> deref hpe q2 = safeContext_request ctx2"
proof -
  note RA = request_json_context_range[OF A] and RB = request_json_context_range[OF B]
  have c1: "\<And>a. r10 = Ref a \<Longrightarrow> a < free hpb" "\<And>a. q10 = Ref a \<Longrightarrow> a < free hpb"
    using RA(2) RA(3) RB(1) by fastforce+
  note SC = safeContext_refs_range[OF C c1] and FC = safeContext_refs_frame[OF C]
  have written: "\<And>a. Ref a \<in> fst ` set ws \<Longrightarrow> a < free hpa \<or> free hpb \<le> a"
  proof -
    fix a assume "Ref a \<in> fst ` set ws"
    with W have "r1 = Ref a \<or> q1 = Ref a" by auto
    then show "a < free hpa \<or> free hpb \<le> a"
      using SC(1)[of a] SC(2)[of a] RA(2)[of a] RA(3)[of a] by auto
  qed
  let ?hpd = "assign_props ws hpc"
  have kept: "\<And>b. free hpa \<le> b \<Longrightarrow> b < free hpb \<Longrightarrow> cells ?hpd b = cells hpb b"
  proof -
    fix b assume b: "free hpa \<le> b" "b < free hpb"
    have "\<forall>a. Ref a \<in> fst ` set ws \<longrightarrow> a \<noteq> b"
      using written b by fastforce
    from assign_props_other[OF this, of hpc] FC(2)[of b] b
    show "cells ?hpd b = cells hpb b" by simp
  qed
  have fr: "free hpb \<le> free ?hpd" using FC(1) by (simp add: assign_props_free)
  have c2: "\<And>a. r20 = Ref a \<Longrightarrow> a < free ?hpd" "\<And>a. q20 = Ref a \<Longrightarrow> a < free ?hpd"
    using RB(2) RB(3) fr by fastforce+
  note SD = safeContext_refs_range[OF D c2]
  have r: "deref ?hpd r20 = deref hpb r20"
    using kept RB(2) by (cases r20) auto
  have q: "deref ?hpd q20 = deref hpb q20"
    using kept RB(3) by (cases q20) auto
  show ?thesis
    using SD(3) SD(4) r q RB(5) RB(6) RB(7) RB(8)
    by (simp add: safeContext_response_def safeContext_request_def js_or_def)
qed

text \<open>
  C3, as the spec states it, fails: no clone is made. When the caller's
  \<^verbatim>\<open>context.response\<close> is the object at address 0, the value bound to \<^verbatim>\<open>response\<close> is
  that same address, and after the snippet's write \<^verbatim>\<open>response.a = 2\<close> the caller's object
  reads \<^verbatim>\<open>{a: 2}\<close>.
\<close>

theorem snippet_write_reaches_caller_object:
  "deref (empty_heap\<lparr>cells := (cells empty_heap)(0 := JObj [(''a'', JNum 1)]), free := 1\<rparr>)
      (Ref 0) = JObj [(''a'', JNum 1)]
   \<and> fst (safeContext_refs (Ref 0, Prim JUndefined)
            (empty_heap\<lparr>cells := (cells empty_heap)(0 := JObj [(''a'', JNum 1)]), free := 1\<rparr>))
       = (Ref 0, Ref 1)
   \<and> deref (assign_prop (Ref 0) ''a'' (JNum 2)
              (snd (safeContext_refs (Ref 0, Prim JUndefined)
                 (empty_heap\<lparr>cells := (cells empty_heap)(0 := JObj [(''a'', JNum 1)]),
                             free := 1\<rparr>))))
        (Ref 0) = JObj [(''a'', JNum 2)]"
  by (simp add: empty_heap_def safeContext_refs_def or_empty_object_def alloc_def)

text \<open>
  C3, amended. The value bound to \<^verbatim>\<open>response\<close> (or \<^verbatim>\<open>request\<close>) is the caller's own value
  whenever that value is truthy: for an object it is the same object, not a copy, so a
  write of the snippet is visible through the caller's reference. Evaluations do not
  affect each other, because each parses its own request body: whatever an evaluation
  writes through its bindings, between the parsing of another request and the building of
  that request's context, the other evaluation still receives the values of its own body.
\<close>

theorem bindings_alias_caller_values:
  "(truthy_ref x \<longrightarrow> or_empty_object x hp = (x, hp))
   \<and> deref (assign_prop (Ref a) k v hp) (Ref a) = set_field (deref hp (Ref a)) k v
   \<and> (request_json_context ctx1 hp = ((r10, q10), hpa) \<longrightarrow>
      request_json_context ctx2 hpa = ((r20, q20), hpb) \<longrightarrow>
      safeContext_refs (r10, q10) hpb = ((r1, q1), hpc) \<longrightarrow>
      fst ` set ws \<subseteq> {r1, q1} \<longrightarrow>
      safeContext_refs (r20, q20) (assign_props ws hpc) = ((r2, q2), hpe) \<longrightarrow>
        deref hpe r2 = safeContext_response ctx2 \<and> deref hpe q2 = safeContext_request ctx2)"
proof (intro conjI impI)
  assume "truthy_ref x"
  then show "or_empty_object x hp = (x, hp)" by (simp add: or_empty_object_def)
next
  show "deref (assign_prop (Ref a) k v hp) (Ref a) = set_field (deref hp (Ref a)) k v"
    by simp
next
  assume "request_json_context ctx1 hp = ((r10, q10), hpa)"
    "request_json_context ctx2 hpa = ((r20, q20), hpb)"
    "safeContext_refs (r10, q10) hpb = ((r1, q1), hpc)"
    "fst ` set ws \<subseteq> {r1, q1}"
    "safeContext_refs (r20, q20) (assign_props ws hpc) = ((r2, q2), hpe)"
  from later_evaluation_reads_its_own_values[OF this]
  show "deref hpe r2 = safeContext_response ctx2" "deref hpe q2 = safeContext_request ctx2"
    by simp_all
qed

theorem bindings_alias_caller_values_witness:
  "truthy_ref (Ref 0)
   \<and> or_empty_object (Ref 0) empty_heap = (Ref 0, empty_heap)
   \<and> fst (request_json_context (JObj [(''response'', JObj [(''a'', JNum 1)])]) empty_heap)
       = (Ref 0, Prim JUndefined)
   \<and> fst (request_json_context (JObj [(''response'', JObj [(''a'', JNum 1)]),
                                      (''request'', JNum 0)])
            (snd (request_json_context (JObj [(''response'', JObj [(''a'', JNum 1)])])
                    empty_heap)))
       = (Ref 1, Prim (JNum 0))
   \<and> fst (safeContext_refs (Ref 0, Prim JUndefined)
            (snd (request_json_context (JObj [(''response'', JObj [(''a'', JNum 1)]),
                                              (''request'', JNum 0)])
                    (snd (request_json_context (JObj [(''response'', JObj [(''a'', JNum 1)])])
                            empty_heap)))))
       = (Ref 0, Ref 2)
   \<and> fst (safeContext_refs (Ref 1, Prim (JNum 0))
            (assign_props [(Ref 0, ''a'', JNum 2), (Ref 2, ''b'', JNull)]
               (snd (safeContext_refs (Ref 0, Prim JUndefined)
                  (snd (request_json_context (JObj [(''response'', JObj [(''a'', JNum 1)]),
                                                    (''request'', JNum 0)])
                     (snd (request_json_context
                             (JObj [(''response'', JObj [(''a'', JNum 1)])])
                             empty_heap))))))))
       = (Ref 1, Ref 3)
   \<and> deref
        (snd (safeContext_refs (Ref 1, Prim (JNum 0))
            (assign_props [(Ref 0, ''a'', JNum 2), (Ref 2, ''b'', JNull)]
               (snd (safeContext_refs (Ref 0, Prim JUndefined)
                  (snd (request_json_context (JObj [(''response'', JObj [(''a'', JNum 1)]),
                                                    (''request'', JNum 0)])
                     (snd (request_json_context
                             (JObj [(''response'', JObj [(''a'', JNum 1)])])
                             empty_heap)))))))))
        (Ref 1)
       = JObj [(''a'', JNum 1)]"
proof -
  let ?ctx1 = "JObj [(''response'', JObj [(''a'', JNum 1)])]"
  let ?ctx2 = "JObj [(''response'', JObj [(''a'', JNum 1)]), (''request'', JNum 0)]"
  let ?ws = "[(Ref 0, ''a'', JNum 2), (Ref 2, ''b'', JNull)]"
  let ?H1 = "\<lparr>cells = (\<lambda>a. JUndefined)(0 := JObj [(''a'', JNum 1)]), free = 1\<rparr>"
  let ?H2 = "\<lparr>cells = (\<lambda>a. JUndefined)(0 := JObj [(''a'', JNum 1)],
                                          1 := JObj [(''a'', JNum 1)]), free = 2\<rparr>"
  let ?H3 = "\<lparr>cells = (\<lambda>a. JUndefined)(0 := JObj [(''a'', JNum 1)],
                                          1 := JObj [(''a'', JNum 1)],
                                          2 := JObj []), free = 3\<rparr>"
  let ?H5 = "snd (safeContext_refs (Ref 1, Prim (JNum 0)) (assign_props ?ws ?H3))"
  have A: "request_json_context ?ctx1 empty_heap = ((Ref 0, Prim JUndefined), ?H1)"
    by (simp add: request_json_context_def alloc_def empty_heap_def)
  have B: "request_json_context ?ctx2 ?H1 = ((Ref 1, Prim (JNum 0)), ?H2)"
    by (simp add: request_json_context_def alloc_def)
  have C: "safeContext_refs (Ref 0, Prim JUndefined) ?H2 = ((Ref 0, Ref 2), ?H3)"
    by (simp add: safeContext_refs_def or_empty_object_def alloc_def)
  have W: "fst ` set ?ws \<subseteq> {Ref 0, Ref 2}" by simp
  have "free (assign_props ?ws ?H3) = 3" by (simp add: assign_props_free)
  then have d: "fst (safeContext_refs (Ref 1, Prim (JNum 0)) (assign_props ?ws ?H3))
                  = (Ref 1, Ref 3)"
    by (simp add: safeContext_refs_def or_empty_object_def alloc_def del: assign_props.simps)
  then have D: "safeContext_refs (Ref 1, Prim (JNum 0)) (assign_props ?ws ?H3)
                  = ((Ref 1, Ref 3), ?H5)"
    by (simp add: prod_eq_iff)
  note t = bindings_alias_caller_values
             [where x = "Ref 0" and hp = empty_heap and ?ctx1.0 = ?ctx1 and ?ctx2.0 = ?ctx2
                and ?r10.0 = "Ref 0" and ?q10.0 = "Prim JUndefined" and hpa = ?H1
                and ?r20.0 = "Ref 1" and ?q20.0 = "Prim (JNum 0)" and hpb = ?H2
                and ?r1.0 = "Ref 0" and ?q1.0 = "Ref 2" and hpc = ?H3 and ws = ?ws
                and ?r2.0 = "Ref 1" and ?q2.0 = "Ref 3" and hpe = ?H5]
  have 1: "or_empty_object (Ref 0) empty_heap = (Ref 0, empty_heap)"
    using t by simp
  from t A B C W D have "deref ?H5 (Ref 1) = safeContext_response ?ctx2" by blast
  then have 2: "deref ?H5 (Ref 1) = JObj [(''a'', JNum 1)]"
    by (simp add: safeContext_response_def js_or_def)
  show ?thesis
    unfolding A B C snd_conv fst_conv using 1 d 2 by simp
qed

end
